theory Spec2Isabelle
  imports Main "HOL-Library.Word" "HOL-Library.Multiset" "HOL-Library.Sublist"
begin

section \<open>DNS messages (github.com/miekg/dns, as the program uses them)\<close>

text \<open>
  The program never looks inside a resource record: \<open>dns.RR\<close> is the type variable
  \<open>'rr\<close> throughout. Record types are the 16-bit codes of the DNS library.
\<close>

definition TypeA :: "16 word" where "TypeA = 1"
definition TypeNS :: "16 word" where "TypeNS = 2"
definition TypeCNAME :: "16 word" where "TypeCNAME = 5"
definition TypePTR :: "16 word" where "TypePTR = 12"
definition TypeMX :: "16 word" where "TypeMX = 15"
definition TypeTXT :: "16 word" where "TypeTXT = 16"
definition TypeAAAA :: "16 word" where "TypeAAAA = 28"
definition TypeANY :: "16 word" where "TypeANY = 255"
definition TypeCAA :: "16 word" where "TypeCAA = 257"

lemmas Type_defs =
  TypeA_def TypeNS_def TypeCNAME_def TypePTR_def TypeMX_def TypeTXT_def TypeAAAA_def
  TypeANY_def TypeCAA_def

definition RcodeSuccess :: int where "RcodeSuccess = 0"
definition RcodeServerFailure :: int where "RcodeServerFailure = 2"
definition OpcodeQuery :: int where "OpcodeQuery = 0"

text \<open>\<open>dns.Question\<close> and \<open>dns.Msg\<close> (the header \<open>MsgHdr\<close> is embedded in the message).\<close>

record question =
  Name :: string
  Qtype :: "16 word"
  Qclass :: "16 word"

record 'rr Msg =
  Id_hdr :: "16 word"
  Response :: bool
  Opcode :: int
  Authoritative :: bool
  Truncated :: bool
  RecursionDesired :: bool
  RecursionAvailable :: bool
  Zero_hdr :: bool
  AuthenticatedData :: bool
  CheckingDisabled :: bool
  Rcode :: int
  Compress :: bool
  Question :: "question list"
  Answer :: "'rr list"
  Ns :: "'rr list"
  Extra :: "'rr list"

text \<open>\<open>new(dns.Msg)\<close>: the zero value of the struct.\<close>

definition new_Msg :: "'rr Msg" where
  "new_Msg = \<lparr> Id_hdr = 0, Response = False, Opcode = 0, Authoritative = False,
     Truncated = False, RecursionDesired = False, RecursionAvailable = False,
     Zero_hdr = False, AuthenticatedData = False, CheckingDisabled = False, Rcode = 0,
     Compress = False, Question = [], Answer = [], Ns = [], Extra = [] \<rparr>"

text \<open>
  \<open>(*Msg).SetReply\<close> and \<open>(*Msg).SetRcode\<close> of the DNS library: the reply takes the
  request's id and opcode, is marked as a response with status success, and carries the
  request's first question. The request is only read.
\<close>

definition SetReply :: "'rr Msg \<Rightarrow> 'rr Msg \<Rightarrow> 'rr Msg" where
  "SetReply m request =
     (let m = m\<lparr>Id_hdr := Id_hdr request\<rparr>;
          m = m\<lparr>Response := True\<rparr>;
          m = m\<lparr>Opcode := Opcode request\<rparr>;
          m = (if Opcode m = OpcodeQuery
               then m\<lparr>RecursionDesired := RecursionDesired request,
                      CheckingDisabled := CheckingDisabled request\<rparr>
               else m);
          m = m\<lparr>Rcode := RcodeSuccess\<rparr>
      in (case Question request of
            [] \<Rightarrow> m
          | q # _ \<Rightarrow> m\<lparr>Question := [q]\<rparr>))"

definition SetRcode :: "'rr Msg \<Rightarrow> 'rr Msg \<Rightarrow> int \<Rightarrow> 'rr Msg" where
  "SetRcode m request rcode = (SetReply m request)\<lparr>Rcode := rcode\<rparr>"

text \<open>
  What a handler did with its two arguments: the message it passed to
  \<open>w.WriteMsg\<close> and the request as the handler left it. \<open>WriteMsg\<close> packs the
  message it is given, so a nil message is a nil-pointer dereference, which stops the
  process.
\<close>

datatype 'rr outcome = NilDeref | Written "'rr Msg" "'rr Msg"

section \<open>The record store\<close>

text \<open>\<open>type records struct { fqdn string; data map[uint16][]dns.RR }\<close>\<close>

record 'rr records =
  fqdn :: string
  data :: "16 word \<rightharpoonup> 'rr list"

section \<open>The query resolver: \<open>handler\<close>\<close>

text \<open>
  \<open>for _, rrs := range recs.data { m.Answer = append(m.Answer, rrs...) }\<close>.
  Go leaves the order of a \<open>range\<close> over a map open, and it may differ from one loop
  to the next: the order in which the loop visits the keys is the argument \<open>ks\<close>.
\<close>

fun rangeAppend :: "(16 word \<rightharpoonup> 'rr list) \<Rightarrow> 16 word list \<Rightarrow> 'rr list \<Rightarrow> 'rr list" where
  "rangeAppend d [] answer = answer"
| "rangeAppend d (k # ks) answer =
     (case d k of
        Some rrs \<Rightarrow> rangeAppend d ks (answer @ rrs)
      | None \<Rightarrow> rangeAppend d ks answer)"

text \<open>
  The loop over \<open>r.Question\<close>; \<open>ord i\<close> is the key order of the \<open>range\<close> over
  \<open>recs.data\<close> run for question number \<open>i\<close>.
\<close>

fun answerLoop ::
  "(nat \<Rightarrow> 16 word list) \<Rightarrow> 'rr records \<Rightarrow> nat \<Rightarrow> question list \<Rightarrow> 'rr Msg \<Rightarrow> 'rr Msg" where
  "answerLoop ord recs i [] m = m"
| "answerLoop ord recs i (q # qs) m =
     answerLoop ord recs (Suc i) qs
       (if Qtype q = TypeANY
        then m\<lparr>Answer := rangeAppend (data recs) (ord i) (Answer m)\<rparr>
        else (case data recs (Qtype q) of
                Some rrs \<Rightarrow> m\<lparr>Answer := Answer m @ rrs\<rparr>
              | None \<Rightarrow> m))"

definition handler :: "(nat \<Rightarrow> 16 word list) \<Rightarrow> 'rr records \<Rightarrow> 'rr Msg \<Rightarrow> 'rr outcome" where
  "handler ord recs r =
     (let m = SetReply new_Msg r;
          m = answerLoop ord recs 0 (Question r) m;
          m = (case data recs TypeNS of Some rrs \<Rightarrow> m\<lparr>Ns := Ns m @ rrs\<rparr> | None \<Rightarrow> m);
          m = (case data recs TypeA of Some rrs \<Rightarrow> m\<lparr>Extra := Extra m @ rrs\<rparr> | None \<Rightarrow> m);
          m = (case data recs TypeAAAA of Some rrs \<Rightarrow> m\<lparr>Extra := Extra m @ rrs\<rparr> | None \<Rightarrow> m)
      in Written m r)"

section \<open>The request logger: \<open>logRequest\<close>\<close>

datatype category = cOverride | cProxied | cTerminal
datatype mark = cSuccess | cFailure

text \<open>
  One log line per question of the request, printed after the wrapped handler returns and
  only when \<open>verbose\<close> is set: the category, the mark read off the request's
  \<open>Rcode\<close>, and the question.
\<close>

definition logRequest ::
  "bool \<Rightarrow> bool \<Rightarrow> bool \<Rightarrow> ('rr Msg \<Rightarrow> 'rr outcome) \<Rightarrow> 'rr Msg
     \<Rightarrow> 'rr outcome \<times> (category \<times> mark \<times> question) list" where
  "logRequest verbose proxy local f r =
     (case f r of
        NilDeref \<Rightarrow> (NilDeref, [])
      | Written m r' \<Rightarrow>
          (Written m r',
           if verbose
           then (let t = (if local then cOverride else if proxy then cProxied else cTerminal);
                     res = (if Rcode r' = 0 then cSuccess else cFailure)
                 in map (\<lambda>q. (t, res, q)) (Question r'))
           else []))"

section \<open>The proxy forwarder: \<open>proxyHandler\<close>\<close>

text \<open>
  Go's \<open>error\<close> values: the two the program creates itself, and those that come out
  of a library (\<open>encoding/json\<close>, the DNS library), which the program only passes on.
\<close>

datatype 'e error = errNotProxied | errNilMapUnmarshal | LibError 'e

text \<open>\<open>dns.ClientConfig\<close>, of which the program reads the servers and the port.\<close>

record ClientConfig =
  Servers :: "string list"
  Port :: string

text \<open>
  \<open>client.Exchange(r, addr)\<close> talks to the network: it is a parameter, a function of
  the state of the world \<open>'w\<close> that returns the message pointer (nil is \<open>None\<close>),
  the error (nil is \<open>None\<close>) and the world after the exchange. An attempt records the
  address that was contacted and what came back.
\<close>

type_synonym ('rr, 'e, 'w) exchange =
  "'w \<Rightarrow> 'rr Msg \<Rightarrow> string \<Rightarrow> ('rr Msg option \<times> 'e error option) \<times> 'w"

type_synonym ('rr, 'e) attempt = "string \<times> 'rr Msg option \<times> 'e error option"

text \<open>
  \<open>for _, ns := range clientConfig.Servers { m, _, err = client.Exchange(...);
  if err == nil { break } }\<close>
\<close>

fun exchangeLoop ::
  "('rr, 'e, 'w) exchange \<Rightarrow> 'rr Msg \<Rightarrow> string \<Rightarrow> string list
     \<Rightarrow> 'rr Msg option \<times> 'e error option \<times> 'w \<times> ('rr, 'e) attempt list
     \<Rightarrow> 'rr Msg option \<times> 'e error option \<times> 'w \<times> ('rr, 'e) attempt list" where
  "exchangeLoop Exchange r port [] st = st"
| "exchangeLoop Exchange r port (ns # servers) (m, err, w, tr) =
     (let addr = ns @ '':'' @ port in
      case Exchange w r addr of
        ((m, err), w) \<Rightarrow>
          if err = None then (m, err, w, tr @ [(addr, m, err)])
          else exchangeLoop Exchange r port servers (m, err, w, tr @ [(addr, m, err)]))"

definition proxyHandler ::
  "bool \<Rightarrow> ClientConfig \<Rightarrow> ('rr, 'e, 'w) exchange \<Rightarrow> 'w \<Rightarrow> 'rr Msg
     \<Rightarrow> 'rr outcome \<times> ('rr, 'e) attempt list \<times> 'w" where
  "proxyHandler proxy clientConfig Exchange w r =
     (case (if proxy
            then exchangeLoop Exchange r (Port clientConfig) (Servers clientConfig)
                   (None, Some errNotProxied, w, [])
            else (None, Some errNotProxied, w, [])) of
        (m, err, w, tr) \<Rightarrow>
          if err \<noteq> None
          then (let m = (case m of None \<Rightarrow> new_Msg | Some m \<Rightarrow> m);
                    m = SetRcode m r RcodeServerFailure;
                    r = r\<lparr>Rcode := RcodeServerFailure\<rparr>
                in (Written m r, tr, w))
          else (case m of
                  None \<Rightarrow> (NilDeref, tr, w)
                | Some m \<Rightarrow> (Written m r, tr, w)))"

section \<open>The zone normalizer: \<open>UnmarshalJSON\<close> and \<open>rrFromMap\<close>\<close>

definition keyHostname :: string where "keyHostname = ''hostname''"
definition keyPriority :: string where "keyPriority = ''priority''"
definition keyTTL :: string where "keyTTL = ''ttl''"
definition keyValue :: string where "keyValue = ''value''"

lemmas key_defs = keyHostname_def keyPriority_def keyTTL_def keyValue_def

definition supportedTypes :: "string \<rightharpoonup> 16 word" where
  "supportedTypes = map_of
     [(''A'', TypeA), (''AAAA'', TypeAAAA), (''CAA'', TypeCAA), (''CNAME'', TypeCNAME),
      (''MX'', TypeMX), (''NS'', TypeNS), (''PTR'', TypePTR), (''TXT'', TypeTXT)]"

text \<open>
  The library functions the normalizer calls and whose results it does not look into:
  \<open>strings.ToLower\<close>, \<open>strings.ToUpper\<close>, \<open>dns.Fqdn\<close>,
  \<open>fmt.Sprintf("%q", v)\<close> and \<open>dns.NewRR\<close>, which returns a record (nil is
  \<open>None\<close>) and an error (nil is \<open>None\<close>).
\<close>

record ('rr, 'e) lib =
  ToLower :: "string \<Rightarrow> string"
  ToUpper :: "string \<Rightarrow> string"
  Fqdn :: "string \<Rightarrow> string"
  Quote :: "string \<Rightarrow> string"
  NewRR :: "string \<Rightarrow> 'rr option \<times> 'e option"

text \<open>\<open>strings.HasSuffix\<close> and \<open>strings.Join\<close>, as the Go library defines them.\<close>

definition HasSuffix :: "string \<Rightarrow> string \<Rightarrow> bool" where
  "HasSuffix s suff =
     (length s \<ge> length suff \<and> drop (length s - length suff) s = suff)"

fun Join :: "string list \<Rightarrow> string \<Rightarrow> string" where
  "Join [] sep = []"
| "Join [x] sep = x"
| "Join (x # y # ys) sep = x @ sep @ Join (y # ys) sep"

text \<open>
  A field map is a \<open>map[string]string\<close>, nil (\<open>None\<close>) when the document has
  \<open>null\<close> in its place. \<open>rrFromMap\<close> returns the pair of \<open>dns.NewRR\<close> and
  the lines it wrote to the log, \<open>defaultTTL\<close> being the global set by the
  \<open>-ttl\<close> flag.
\<close>

type_synonym fieldMap = "(string \<rightharpoonup> string) option"

definition rrFromMap ::
  "('rr, 'e) lib \<Rightarrow> string \<Rightarrow> string \<Rightarrow> string \<Rightarrow> fieldMap
     \<Rightarrow> ('rr option \<times> 'e error option) \<times> string list" where
  "rrFromMap L defaultTTL typ fqdn' mo =
     (case mo of
        None \<Rightarrow> ((None, None), [])
      | Some m \<Rightarrow>
          (let parts = [];
               parts = (case m keyHostname of
                          Some v \<Rightarrow>
                            (let v = (if v = ''@'' then fqdn'
                                      else if \<not> HasSuffix v fqdn' then v @ ''.'' @ fqdn'
                                      else v)
                             in parts @ [v])
                        | None \<Rightarrow> parts @ [fqdn']);
               parts = (case m keyTTL of
                          Some v \<Rightarrow> parts @ [v]
                        | None \<Rightarrow> parts @ [defaultTTL]);
               parts = parts @ [''IN'', typ];
               parts = (if typ = ''MX''
                        then (case m keyPriority of
                                Some v \<Rightarrow> parts @ [v]
                              | None \<Rightarrow> parts)
                        else parts);
               parts = (case m keyValue of
                          Some v \<Rightarrow>
                            (let v = (if typ = ''TXT'' then Quote L v else v)
                             in parts @ [v])
                        | None \<Rightarrow> parts);
               s = Join parts '' ''
           in case NewRR L s of
                (rr, err) \<Rightarrow>
                  ((rr, map_option LibError err), if err \<noteq> None then [s] else [])))"

text \<open>
  A JSON text is modelled by what \<open>json.Unmarshal\<close> makes of it: an error
  (\<open>Inl\<close>) or the decoded Go map, written as the list of its entries in the order
  in which the \<open>range\<close> loop then visits them (the keys of a Go map are distinct).
  The body of one domain is a \<open>map[string][]map[string]string\<close>.
\<close>

type_synonym 'e recordsJSON = "'e + (string \<times> fieldMap list) list"
type_synonym 'e dataJSON = "'e + (string \<times> 'e recordsJSON) list"

text \<open>
  \<open>for _, r := range v { ... }\<close>, the inner loop of \<open>records.UnmarshalJSON\<close>.
  The loop assigns \<open>typ = strings.ToUpper(typ)\<close> at each turn, so the next turn
  starts from the upper-cased name. The result is the record set, the error returned
  (\<open>None\<close> when the loop runs to its end) and the log lines written.
\<close>

fun recordLoop ::
  "('rr, 'e) lib \<Rightarrow> string \<Rightarrow> string \<Rightarrow> fieldMap list \<Rightarrow> 'rr records
     \<Rightarrow> 'rr records \<times> 'e error option \<times> string list" where
  "recordLoop L defaultTTL typ [] recs = (recs, None, [])"
| "recordLoop L defaultTTL typ (r # v) recs =
     (let typ = ToUpper L typ in
      case supportedTypes typ of
        None \<Rightarrow> recordLoop L defaultTTL typ v recs
      | Some iType \<Rightarrow>
          (case rrFromMap L defaultTTL typ (fqdn recs) r of
             ((rr, rErr), lg) \<Rightarrow>
               if rErr \<noteq> None then (recs, rErr, lg)
               else (let recs =
                       (case rr of
                          Some rr' \<Rightarrow>
                            recs\<lparr>data := (data recs)(iType \<mapsto>
                              (case data recs iType of Some old \<Rightarrow> old | None \<Rightarrow> []) @ [rr'])\<rparr>
                        | None \<Rightarrow> recs)
                     in case recordLoop L defaultTTL typ v recs of
                          (recs, err, lg') \<Rightarrow> (recs, err, lg @ lg'))))"

text \<open>\<open>for typ, v := range m { ... }\<close>, the outer loop.\<close>

fun typeLoop ::
  "('rr, 'e) lib \<Rightarrow> string \<Rightarrow> (string \<times> fieldMap list) list \<Rightarrow> 'rr records
     \<Rightarrow> 'rr records \<times> 'e error option \<times> string list" where
  "typeLoop L defaultTTL [] recs = (recs, None, [])"
| "typeLoop L defaultTTL ((typ, v) # m) recs =
     (case recordLoop L defaultTTL typ v recs of
        (recs, Some e, lg) \<Rightarrow> (recs, Some e, lg)
      | (recs, None, lg) \<Rightarrow>
          (case typeLoop L defaultTTL m recs of
             (recs, err, lg') \<Rightarrow> (recs, err, lg @ lg')))"

text \<open>
  \<open>records.UnmarshalJSON\<close>. A nil \<open>recs.data\<close> is replaced by an empty map first;
  a map \<open>\<rightharpoonup>\<close> does not tell the two apart.
\<close>

definition records_UnmarshalJSON ::
  "('rr, 'e) lib \<Rightarrow> string \<Rightarrow> 'rr records \<Rightarrow> 'e recordsJSON
     \<Rightarrow> 'rr records \<times> 'e error option \<times> string list" where
  "records_UnmarshalJSON L defaultTTL recs b =
     (case b of
        Inl e \<Rightarrow> (recs, Some (LibError e), [])
      | Inr m \<Rightarrow> typeLoop L defaultTTL m recs)"

text \<open>
  \<open>for domain, j := range m { ... }\<close> of \<open>data.UnmarshalJSON\<close>: the map \<open>d\<close> is
  written in place, one domain at a time.
\<close>

type_synonym 'rr store = "string \<rightharpoonup> 'rr records"

fun domainLoop ::
  "('rr, 'e) lib \<Rightarrow> string \<Rightarrow> (string \<times> 'e recordsJSON) list \<Rightarrow> 'rr store
     \<Rightarrow> 'rr store \<times> 'e error option \<times> string list" where
  "domainLoop L defaultTTL [] d = (d, None, [])"
| "domainLoop L defaultTTL ((domain, j) # m) d =
     (let domain = Fqdn L (ToLower L domain);
          rt = \<lparr> fqdn = domain, data = Map.empty \<rparr>
      in case records_UnmarshalJSON L defaultTTL rt j of
           (rt, uErr, lg) \<Rightarrow>
             if uErr \<noteq> None then (d, uErr, lg)
             else (case domainLoop L defaultTTL m (d(domain \<mapsto> rt)) of
                     (d, err, lg') \<Rightarrow> (d, err, lg @ lg')))"

text \<open>
  \<open>data.UnmarshalJSON\<close>: \<open>d\<close> is the map the method is called on (nil is
  \<open>None\<close>); the result is that map after the call, the error returned and the log.
\<close>

definition data_UnmarshalJSON ::
  "('rr, 'e) lib \<Rightarrow> string \<Rightarrow> 'rr store option \<Rightarrow> 'e dataJSON
     \<Rightarrow> 'rr store option \<times> 'e error option \<times> string list" where
  "data_UnmarshalJSON L defaultTTL d b =
     (case d of
        None \<Rightarrow> (None, Some errNilMapUnmarshal, [])
      | Some d' \<Rightarrow>
          (case b of
             Inl e \<Rightarrow> (Some d', Some (LibError e), [])
           | Inr m \<Rightarrow>
               (case domainLoop L defaultTTL m d' of
                  (d'', err, lg) \<Rightarrow> (Some d'', err, lg))))"

text \<open>
  The part of \<open>main\<close> that loads the store: \<open>d := make(data)\<close>,
  \<open>json.Unmarshal(b, &d)\<close>, and \<open>log.Fatal(err)\<close> on an error, which ends the
  process before any listener starts.
\<close>

datatype ('rr, 'e) startup = Fatal "'e error" | Serve "'rr store"

definition main_load :: "('rr, 'e) lib \<Rightarrow> string \<Rightarrow> 'e dataJSON \<Rightarrow> ('rr, 'e) startup" where
  "main_load L defaultTTL b =
     (case data_UnmarshalJSON L defaultTTL (Some Map.empty) b of
        (d, Some e, lg) \<Rightarrow> Fatal e
      | (d, None, lg) \<Rightarrow> Serve (case d of Some d' \<Rightarrow> d' | None \<Rightarrow> Map.empty))"

section \<open>The resolver as the specification words it\<close>

text \<open>What one question adds to the answer section, given the key order of its range loop.\<close>

definition answerFor :: "'rr records \<Rightarrow> 16 word list \<Rightarrow> question \<Rightarrow> 'rr list" where
  "answerFor recs ks q =
     (if Qtype q = TypeANY then concat (map (\<lambda>k. the (data recs k)) ks)
      else (case data recs (Qtype q) of Some rrs \<Rightarrow> rrs | None \<Rightarrow> []))"

section \<open>The normalizer as the specification words it\<close>

text \<open>
  The owner name of a record: the domain name when the field map has no \<open>hostname\<close>
  or has \<open>@\<close> there, the host name itself when it ends with the domain name, and the
  host name with a dot and the domain name appended otherwise.
\<close>

definition ownerName :: "string \<Rightarrow> (string \<rightharpoonup> string) \<Rightarrow> string" where
  "ownerName domain m =
     (case m keyHostname of
        None \<Rightarrow> domain
      | Some v \<Rightarrow>
          if v = ''@'' then domain
          else if suffix domain v then v
          else v @ ''.'' @ domain)"

text \<open>
  The record line: owner name, TTL (the field or the default), \<open>IN\<close>, the type name,
  the priority for an MX record that has one, and the value when there is one, quoted for
  a TXT record; all joined by single blanks.
\<close>

definition recordLine ::
  "('rr, 'e) lib \<Rightarrow> string \<Rightarrow> string \<Rightarrow> string \<Rightarrow> (string \<rightharpoonup> string) \<Rightarrow> string" where
  "recordLine L defaultTTL typ domain m =
     Join ([ownerName domain m,
            (case m keyTTL of Some t \<Rightarrow> t | None \<Rightarrow> defaultTTL),
            ''IN'', typ]
           @ (if typ = ''MX'' then (case m keyPriority of Some p \<Rightarrow> [p] | None \<Rightarrow> []) else [])
           @ (case m keyValue of
                Some v \<Rightarrow> [if typ = ''TXT'' then Quote L v else v]
              | None \<Rightarrow> []))
       '' ''"

text \<open>
  A record set is well formed when no type of its map has an empty sequence, every type
  of the map is one of the supported ones, and every record stored under a type is what
  the RR constructor made of a record line of that type for the set's domain.
\<close>

definition wellFormed :: "('rr, 'e) lib \<Rightarrow> string \<Rightarrow> 'rr records \<Rightarrow> bool" where
  "wellFormed L defaultTTL recs =
     (\<forall>typ rrs. data recs typ = Some rrs \<longrightarrow>
        rrs \<noteq> [] \<and>
        (\<forall>rr \<in> set rrs. \<exists>typName m.
           supportedTypes typName = Some typ \<and>
           NewRR L (recordLine L defaultTTL typName (fqdn recs) m) = (Some rr, None)))"

text \<open>The document without the entries whose type name is not a supported one.\<close>

definition supported :: "('rr, 'e) lib \<Rightarrow> string \<Rightarrow> bool" where
  "supported L typ = (supportedTypes (ToUpper L typ) \<noteq> None)"

definition withoutUnsupported :: "('rr, 'e) lib \<Rightarrow> 'e dataJSON \<Rightarrow> 'e dataJSON" where
  "withoutUnsupported L b =
     map_sum id (map (\<lambda>(domain, j). (domain, map_sum id (filter (\<lambda>(typ, v). supported L typ)) j))) b"




section \<open>Example inputs\<close>

text \<open>
  A record set, with the text of a record standing for the record, a query with three
  questions, and the order in which every range loop over the record set visits its types.
\<close>

definition exRecs :: "string records" where
  "exRecs = \<lparr> fqdn = ''example.com.'',
     data = [TypeA \<mapsto> [''a1'', ''a2''], TypeNS \<mapsto> [''ns1''], TypeTXT \<mapsto> [''txt1'']] \<rparr>"

definition exQuery :: "string Msg" where
  "exQuery = new_Msg\<lparr> Id_hdr := 7, RecursionDesired := True,
     Question := [\<lparr> Name = ''example.com.'', Qtype = TypeANY, Qclass = 1 \<rparr>,
                  \<lparr> Name = ''example.com.'', Qtype = TypeMX, Qclass = 1 \<rparr>,
                  \<lparr> Name = ''example.com.'', Qtype = TypeA, Qclass = 1 \<rparr>] \<rparr>"

definition exOrd :: "nat \<Rightarrow> 16 word list" where
  "exOrd i = [TypeTXT, TypeA, TypeNS]"


text \<open>
  A resolver configuration with three upstream servers and a network in which only
  the second one answers; the world counts the exchanges made so far.
\<close>

definition exConfig :: ClientConfig where
  "exConfig = \<lparr> Servers = [''10.0.0.1'', ''10.0.0.2'', ''10.0.0.3''], Port = ''53'' \<rparr>"

definition exUpstreamReply :: "string Msg \<Rightarrow> string Msg" where
  "exUpstreamReply r = (SetReply new_Msg r)\<lparr>RecursionAvailable := True, Answer := [''up'']\<rparr>"

definition exExchange :: "(string, string, nat) exchange" where
  "exExchange w r addr =
     (if addr = ''10.0.0.2:53'' then ((Some (exUpstreamReply r), None), Suc w)
      else ((None, Some (LibError ''i/o timeout'')), Suc w))"

definition exDownConfig :: ClientConfig where
  "exDownConfig = \<lparr> Servers = [''10.0.0.1'', ''10.0.0.3''], Port = ''53'' \<rparr>"

text \<open>
  Library functions for the examples: ASCII case mapping, a trailing dot for
  \<open>dns.Fqdn\<close>, plain double quotes for \<open>%q\<close>, and an RR constructor that takes
  the line itself for the record and rejects every line with an exclamation mark.
\<close>

definition exUpperChar :: "char \<Rightarrow> char" where
  "exUpperChar c =
     (case map_of (zip ''abcdefghijklmnopqrstuvwxyz'' ''ABCDEFGHIJKLMNOPQRSTUVWXYZ'') c of
        Some u \<Rightarrow> u
      | None \<Rightarrow> c)"

definition exLowerChar :: "char \<Rightarrow> char" where
  "exLowerChar c =
     (case map_of (zip ''ABCDEFGHIJKLMNOPQRSTUVWXYZ'' ''abcdefghijklmnopqrstuvwxyz'') c of
        Some l \<Rightarrow> l
      | None \<Rightarrow> c)"

definition exLib :: "(string, string) lib" where
  "exLib = \<lparr> ToLower = map exLowerChar,
             ToUpper = map exUpperChar,
             Fqdn = (\<lambda>s. if s \<noteq> [] \<and> last s = CHR ''.'' then s else s @ ''.''),
             Quote = (\<lambda>v. [CHR 0x22] @ v @ [CHR 0x22]),
             NewRR = (\<lambda>s. if CHR ''!'' \<in> set s then (None, Some ''bad rdata'')
                           else (Some s, None)) \<rparr>"

definition exFieldMap :: "string \<rightharpoonup> string" where
  "exFieldMap = [''hostname'' \<mapsto> ''www'', ''priority'' \<mapsto> ''10'', ''value'' \<mapsto> ''192.0.2.1'']"

definition exDoc :: "string dataJSON" where
  "exDoc = Inr [(''Example.COM'',
                 Inr [(''a'', [Some [''value'' \<mapsto> ''192.0.2.1''], None]),
                      (''SRV'', [Some [''value'' \<mapsto> ''!'']]),
                      (''txt'', [Some [''hostname'' \<mapsto> ''@'', ''value'' \<mapsto> ''hello world'']])])]"

definition exDocRecased :: "string dataJSON" where
  "exDocRecased = Inr [(''example.com'',
                 Inr [(''A'', [Some [''value'' \<mapsto> ''192.0.2.1''], None]),
                      (''srv'', [Some [''value'' \<mapsto> ''!'']]),
                      (''Txt'', [Some [''hostname'' \<mapsto> ''@'', ''value'' \<mapsto> ''hello world'']])])]"

text \<open>What loading \<open>exDoc\<close> gives.\<close>

definition exStore :: "string store" where
  "exStore = [''example.com.'' \<mapsto>
     \<lparr> fqdn = ''example.com.'',
       data = [TypeA \<mapsto> [''example.com. 3600 IN A 192.0.2.1''],
               TypeTXT \<mapsto> [''example.com. 3600 IN TXT '' @ [CHR 0x22] @ ''hello world'' @ [CHR 0x22]]] \<rparr>]"

text \<open>
  A document whose second domain, in the order of the loop, has a field map with a
  rejected line, and the store as the failed load leaves it.
\<close>

definition exBadValue :: "string \<rightharpoonup> string" where
  "exBadValue = [''value'' \<mapsto> ''!'']"

definition exBadEntries :: "(string \<times> string recordsJSON) list" where
  "exBadEntries = [(''good.test'', Inr [(''NS'', [Some [''value'' \<mapsto> ''ns1.test.'']])]),
                   (''bad.test'', Inr [(''A'', [Some exBadValue])])]"

definition exBadDoc :: "string dataJSON" where
  "exBadDoc = Inr exBadEntries"

definition exPartialStore :: "string store" where
  "exPartialStore = [''good.test.'' \<mapsto>
     \<lparr> fqdn = ''good.test.'', data = [TypeNS \<mapsto> [''good.test. 3600 IN NS ns1.test.'']] \<rparr>]"

section \<open>Properties of the query resolver\<close>

lemma rangeAppend_concat:
  "rangeAppend d ks answer =
     answer @ concat (map (\<lambda>k. case d k of Some rrs \<Rightarrow> rrs | None \<Rightarrow> []) ks)"
  by (induction ks arbitrary: answer) (auto split: option.splits)

lemma rangeAppend_the:
  "set ks \<subseteq> dom d \<Longrightarrow> rangeAppend d ks answer = answer @ concat (map (\<lambda>k. the (d k)) ks)"
  by (induction ks arbitrary: answer) (auto split: option.splits)

lemma answerLoop_Answer:
  assumes "\<forall>j < length qs. set (ord (i + j)) \<subseteq> dom (data recs)"
  shows "Answer (answerLoop ord recs i qs m) =
           Answer m @ concat (map (\<lambda>(j, q). answerFor recs (ord j) q) (enumerate i qs))"
  using assms
proof (induction qs arbitrary: i m)
  case Nil
  then show ?case by simp
next
  case (Cons q qs)
  have here: "set (ord i) \<subseteq> dom (data recs)"
    using Cons.prems by force
  have later: "\<forall>j < length qs. set (ord (Suc i + j)) \<subseteq> dom (data recs)"
    using Cons.prems by force
  show ?case
    using Cons.IH [OF later] here
    by (simp add: answerFor_def rangeAppend_the split: option.splits)
qed

lemma answerLoop_other:
  "Rcode (answerLoop ord recs i qs m) = Rcode m"
  "Ns (answerLoop ord recs i qs m) = Ns m"
  "Extra (answerLoop ord recs i qs m) = Extra m"
  by (induction qs arbitrary: i m) (auto split: option.splits)

lemma SetReply_new:
  "Rcode (SetReply new_Msg r) = RcodeSuccess"
  "Answer (SetReply new_Msg r) = []"
  "Ns (SetReply new_Msg r) = []"
  "Extra (SetReply new_Msg r) = []"
  by (simp_all add: SetReply_def new_Msg_def Let_def split: list.splits)

text \<open>
  Claim C1. The answer section is the concatenation of one block per question, in the
  order of the questions. For a question of type ANY the block is every stored sequence
  of the record set, each whole and in its stored order, one after the other in the order
  in which the range loop visits the types, so that it holds every stored record of every
  type exactly as often as it is stored. For any other type the block is the sequence
  stored under exactly that type, and is empty when the type is absent. The status of the
  response is success in every case.
\<close>

theorem handler_answer_section:
  assumes "\<forall>i < length (Question r). distinct (ord i) \<and> set (ord i) = dom (data recs)"
  shows "\<exists>m parts. handler ord recs r = Written m r
           \<and> Rcode m = RcodeSuccess
           \<and> Answer m = concat parts \<and> length parts = length (Question r)
           \<and> (\<forall>i < length (Question r).
                 if Qtype (Question r ! i) = TypeANY
                 then parts ! i = concat (map (\<lambda>k. the (data recs k)) (ord i))
                      \<and> mset (parts ! i) = (\<Sum>k \<in> dom (data recs). mset (the (data recs k)))
                 else parts ! i = (case data recs (Qtype (Question r ! i)) of
                                     Some rrs \<Rightarrow> rrs | None \<Rightarrow> []))"
proof -
  let ?parts = "map (\<lambda>(j, q). answerFor recs (ord j) q) (enumerate 0 (Question r))"
  let ?m0 = "SetReply new_Msg r"
  let ?m1 = "answerLoop ord recs 0 (Question r) ?m0"
  obtain m where m: "handler ord recs r = Written m r"
    and rc: "Rcode m = Rcode ?m1" and an: "Answer m = Answer ?m1"
    by (simp add: handler_def Let_def split: option.splits)
  have sub: "\<forall>j < length (Question r). set (ord (0 + j)) \<subseteq> dom (data recs)"
    using assms by simp
  have A: "Answer m = concat ?parts"
    using answerLoop_Answer [OF sub, of ?m0] an by (simp add: SetReply_new)
  have R: "Rcode m = RcodeSuccess"
    using rc by (simp add: answerLoop_other SetReply_new)
  have P: "if Qtype (Question r ! i) = TypeANY
           then ?parts ! i = concat (map (\<lambda>k. the (data recs k)) (ord i))
                \<and> mset (?parts ! i) = (\<Sum>k \<in> dom (data recs). mset (the (data recs k)))
           else ?parts ! i = (case data recs (Qtype (Question r ! i)) of
                               Some rrs \<Rightarrow> rrs | None \<Rightarrow> [])"
    if i: "i < length (Question r)" for i
  proof -
    have d: "distinct (ord i)" and s: "set (ord i) = dom (data recs)"
      using assms i by auto
    have nth: "?parts ! i = answerFor recs (ord i) (Question r ! i)"
      using i by (simp add: nth_enumerate_eq)
    have ms: "mset (concat (map (\<lambda>k. the (data recs k)) (ord i)))
                = (\<Sum>k \<in> dom (data recs). mset (the (data recs k)))"
      using d s by (simp add: mset_concat comp_def sum_list_distinct_conv_sum_set)
    show ?thesis
      using nth ms by (simp add: answerFor_def)
  qed
  have L: "length ?parts = length (Question r)"
    by simp
  from P have P': "\<forall>i < length (Question r).
           if Qtype (Question r ! i) = TypeANY
           then ?parts ! i = concat (map (\<lambda>k. the (data recs k)) (ord i))
                \<and> mset (?parts ! i) = (\<Sum>k \<in> dom (data recs). mset (the (data recs k)))
           else ?parts ! i = (case data recs (Qtype (Question r ! i)) of
                               Some rrs \<Rightarrow> rrs | None \<Rightarrow> [])"
    by blast
  from m R A L P' show ?thesis
    by blast
qed

theorem handler_answer_section_witness:
  "length (Question exQuery) = 3
   \<and> distinct (exOrd 0) \<and> set (exOrd 0) = dom (data exRecs)
   \<and> distinct (exOrd 1) \<and> set (exOrd 1) = dom (data exRecs)
   \<and> distinct (exOrd 2) \<and> set (exOrd 2) = dom (data exRecs)
   \<and> (\<exists>m. handler exOrd exRecs exQuery = Written m exQuery
           \<and> Rcode m = RcodeSuccess
           \<and> Answer m = [''txt1'', ''a1'', ''a2'', ''ns1'', ''a1'', ''a2''])"
proof -
  have h: "\<forall>i < length (Question exQuery). distinct (exOrd i) \<and> set (exOrd i) = dom (data exRecs)"
    by (auto simp: exOrd_def exRecs_def exQuery_def Type_defs)
  from handler_answer_section [OF h] obtain m parts where
    m: "handler exOrd exRecs exQuery = Written m exQuery" "Rcode m = RcodeSuccess"
    by blast
  have "Answer m = [''txt1'', ''a1'', ''a2'', ''ns1'', ''a1'', ''a2'']"
    using m(1) by (auto simp: handler_def exOrd_def exRecs_def exQuery_def Type_defs Let_def SetReply_def new_Msg_def)
  moreover have "length (Question exQuery) = 3"
    by (simp add: exQuery_def)
  moreover have "distinct (exOrd i) \<and> set (exOrd i) = dom (data exRecs)" for i
    by (auto simp: exOrd_def exRecs_def Type_defs)
  ultimately show ?thesis using m by blast
qed

text \<open>
  Claim C2. Whatever the questions are, the authority section of the response is the
  stored sequence of NS records, and the additional section is the stored sequence of A
  records followed by the stored sequence of AAAA records, each taken once (an absent type
  contributes nothing).
\<close>

theorem handler_authority_additional:
  "\<exists>m. handler ord recs r = Written m r
      \<and> Ns m = (case data recs TypeNS of Some rrs \<Rightarrow> rrs | None \<Rightarrow> [])
      \<and> Extra m = (case data recs TypeA of Some rrs \<Rightarrow> rrs | None \<Rightarrow> [])
                 @ (case data recs TypeAAAA of Some rrs \<Rightarrow> rrs | None \<Rightarrow> [])"
  by (simp add: handler_def Let_def answerLoop_other SetReply_new split: option.splits)

text \<open>
  Claim C10. The handler of a local domain writes a response and leaves the request as it
  came in. When the request came in with status 0, the logger therefore marks each of its
  questions as a locally answered success, whatever the response holds.
\<close>

theorem handler_request_unchanged:
  "(\<exists>m. handler ord recs r = Written m r)
   \<and> (Rcode r = 0 \<longrightarrow>
        snd (logRequest verbose proxy True (handler ord recs) r)
          = (if verbose then map (\<lambda>q. (cOverride, cSuccess, q)) (Question r) else []))"
  by (simp add: handler_def logRequest_def Let_def)

theorem handler_request_unchanged_witness:
  "Rcode exQuery = 0
   \<and> snd (logRequest True False True (handler exOrd exRecs) exQuery)
       = map (\<lambda>q. (cOverride, cSuccess, q)) (Question exQuery)"
  using handler_request_unchanged [of exOrd exRecs exQuery True False]
  by (simp add: exQuery_def new_Msg_def)

section \<open>Properties of the proxy forwarder\<close>

lemma exchangeLoop_trace:
  "exchangeLoop Exch r port servers (m0, e0, w0, tr0) = (m, e, w, tr) \<Longrightarrow>
   \<exists>new. tr = tr0 @ new
     \<and> map fst new = take (length new) (map (\<lambda>ns. ns @ '':'' @ port) servers)
     \<and> (\<forall>a \<in> set (butlast new). snd (snd a) \<noteq> None)
     \<and> (if new = [] then servers = [] \<and> m = m0 \<and> e = e0 else snd (last new) = (m, e))
     \<and> (e \<noteq> None \<longrightarrow> length new = length servers)"
proof (induction servers arbitrary: m0 e0 w0 tr0)
  case Nil
  then show ?case by simp
next
  case (Cons ns servers)
  let ?addr = "ns @ '':'' @ port"
  obtain m1 e1 w1 where ex: "Exch w0 r ?addr = ((m1, e1), w1)"
    by (metis prod.exhaust)
  let ?a = "(?addr, m1, e1)"
  have step: "exchangeLoop Exch r port (ns # servers) (m0, e0, w0, tr0) =
      (if e1 = None then (m1, e1, w1, tr0 @ [?a])
       else exchangeLoop Exch r port servers (m1, e1, w1, tr0 @ [?a]))"
    using ex by (simp add: Let_def)
  show ?case
  proof (cases "e1 = None")
    case True
    with Cons.prems have "tr = tr0 @ [?a]" "m = m1" "e = e1"
      unfolding step by auto
    with True show ?thesis
      by (intro exI [of _ "[?a]"]) simp
  next
    case False
    with Cons.prems
    have "exchangeLoop Exch r port servers (m1, e1, w1, tr0 @ [?a]) = (m, e, w, tr)"
      unfolding step by (simp only: if_False)
    from Cons.IH [OF this] obtain new where new:
      "tr = (tr0 @ [?a]) @ new"
      "map fst new = take (length new) (map (\<lambda>ns. ns @ '':'' @ port) servers)"
      "\<forall>a \<in> set (butlast new). snd (snd a) \<noteq> None"
      "if new = [] then servers = [] \<and> m = m1 \<and> e = e1 else snd (last new) = (m, e)"
      "e \<noteq> None \<longrightarrow> length new = length servers"
      by blast
    show ?thesis
      using new False
      by (intro exI [of _ "?a # new"]) (auto split: if_splits)
  qed
qed



text \<open>
  Claim C7. When forwarding is disabled, or the server list is empty, or every exchange
  made has failed, the forwarder has tried every configured server (none when disabled),
  writes a response whose status is server-failure (so it does not stop the process on a
  nil message), and leaves the request with its status set to server-failure, which the
  logger then reports as a failure for each question.
\<close>

theorem proxyHandler_failure:
  assumes run: "proxyHandler proxy cfg Exch w r = (out, tr, w')"
    and fail: "\<not> proxy \<or> Servers cfg = [] \<or> (\<forall>a \<in> set tr. snd (snd a) \<noteq> None)"
  shows "\<exists>m. out = Written m (r\<lparr>Rcode := RcodeServerFailure\<rparr>)
           \<and> Rcode m = RcodeServerFailure
           \<and> out \<noteq> NilDeref
           \<and> length tr = (if proxy then length (Servers cfg) else 0)
           \<and> snd (logRequest verbose proxy False (\<lambda>r. fst (proxyHandler proxy cfg Exch w r)) r)
               = (if verbose
                  then map (\<lambda>q. (if proxy then cProxied else cTerminal, cFailure, q)) (Question r)
                  else [])"
proof -
  obtain m e w1 tr1 where st:
    "(if proxy
      then exchangeLoop Exch r (Port cfg) (Servers cfg) (None, Some errNotProxied, w, [])
      else (None, Some errNotProxied, w, [])) = (m, e, w1, tr1)"
    by (metis prod.exhaust)
  have tr: "tr = tr1"
    using run st by (auto simp: proxyHandler_def Let_def split: if_splits option.splits)
  have e: "e \<noteq> None \<and> length tr1 = (if proxy then length (Servers cfg) else 0)"
  proof (cases proxy)
    case False
    with st show ?thesis by auto
  next
    case True
    with st have loop:
      "exchangeLoop Exch r (Port cfg) (Servers cfg) (None, Some errNotProxied, w, []) = (m, e, w1, tr1)"
      by simp
    from exchangeLoop_trace [OF loop] have facts:
      "if tr1 = [] then Servers cfg = [] \<and> m = None \<and> e = Some errNotProxied
       else snd (last tr1) = (m, e)"
      "e \<noteq> None \<longrightarrow> length tr1 = length (Servers cfg)"
      by auto
    have "e \<noteq> None"
    proof (cases "tr1 = []")
      case True
      with facts(1) show ?thesis by simp
    next
      case False
      then have "last tr1 \<in> set tr1" by simp
      moreover have "Servers cfg \<noteq> []"
        using loop False by auto
      ultimately have "snd (snd (last tr1)) \<noteq> None"
        using fail True tr by blast
      with facts(1) False show ?thesis by auto
    qed
    with facts(2) True show ?thesis by simp
  qed
  let ?m = "SetRcode (case m of None \<Rightarrow> new_Msg | Some m' \<Rightarrow> m') r RcodeServerFailure"
  have out: "proxyHandler proxy cfg Exch w r = (Written ?m (r\<lparr>Rcode := RcodeServerFailure\<rparr>), tr1, w1)"
    using st e unfolding proxyHandler_def by (simp add: Let_def)
  have "out = Written ?m (r\<lparr>Rcode := RcodeServerFailure\<rparr>)"
    using out run by simp
  moreover have "Rcode ?m = RcodeServerFailure"
    by (simp add: SetRcode_def)
  moreover have "snd (logRequest verbose proxy False (\<lambda>r. fst (proxyHandler proxy cfg Exch w r)) r)
               = (if verbose
                  then map (\<lambda>q. (if proxy then cProxied else cTerminal, cFailure, q)) (Question r)
                  else [])"
    by (simp add: logRequest_def out RcodeServerFailure_def Let_def)
  ultimately show ?thesis
    using e tr by auto
qed

theorem proxyHandler_failure_witness:
  "(\<exists>m. proxyHandler True exDownConfig exExchange 0 exQuery
        = (Written m (exQuery\<lparr>Rcode := RcodeServerFailure\<rparr>),
           [(''10.0.0.1:53'', None, Some (LibError ''i/o timeout'')),
            (''10.0.0.3:53'', None, Some (LibError ''i/o timeout''))], 2)
      \<and> Rcode m = RcodeServerFailure)
   \<and> (\<exists>m. proxyHandler False exConfig exExchange 0 exQuery
        = (Written m (exQuery\<lparr>Rcode := RcodeServerFailure\<rparr>), [], 0)
      \<and> Rcode m = RcodeServerFailure)"
proof -
  obtain out where run: "proxyHandler True exDownConfig exExchange 0 exQuery
        = (out,
           [(''10.0.0.1:53'', None, Some (LibError ''i/o timeout'')),
            (''10.0.0.3:53'', None, Some (LibError ''i/o timeout''))], 2)"
    by (simp add: proxyHandler_def exDownConfig_def exExchange_def Let_def)
  have A: "\<exists>m. proxyHandler True exDownConfig exExchange 0 exQuery
        = (Written m (exQuery\<lparr>Rcode := RcodeServerFailure\<rparr>),
           [(''10.0.0.1:53'', None, Some (LibError ''i/o timeout'')),
            (''10.0.0.3:53'', None, Some (LibError ''i/o timeout''))], 2)
      \<and> Rcode m = RcodeServerFailure"
    using proxyHandler_failure [OF run] run by auto
  obtain out' where run': "proxyHandler False exConfig exExchange 0 exQuery = (out', [], 0)"
    by (simp add: proxyHandler_def Let_def)
  have B: "\<exists>m. proxyHandler False exConfig exExchange 0 exQuery
        = (Written m (exQuery\<lparr>Rcode := RcodeServerFailure\<rparr>), [], 0)
      \<and> Rcode m = RcodeServerFailure"
    using proxyHandler_failure [OF run'] run' by auto
  from A B show ?thesis by blast
qed

section \<open>Properties of the zone normalizer\<close>

lemma HasSuffix_suffix: "HasSuffix v domain \<longleftrightarrow> suffix domain v"
proof
  assume "HasSuffix v domain"
  then have "v = take (length v - length domain) v @ domain"
    by (metis HasSuffix_def append_take_drop_id)
  then show "suffix domain v"
    by (metis suffixI)
next
  assume "suffix domain v"
  then obtain zs where "v = zs @ domain"
    by (auto simp: suffix_def)
  then show "HasSuffix v domain"
    by (simp add: HasSuffix_def)
qed

lemma rrFromMap_Some:
  "rrFromMap L defaultTTL typ domain (Some m) =
     (case NewRR L (recordLine L defaultTTL typ domain m) of
        (rr, err) \<Rightarrow>
          ((rr, map_option LibError err),
           if err \<noteq> None then [recordLine L defaultTTL typ domain m] else []))"
  unfolding rrFromMap_def recordLine_def ownerName_def Let_def
  by (cases "m keyHostname"; cases "m keyTTL"; cases "m keyPriority"; cases "m keyValue")
     (simp_all add: HasSuffix_suffix cong: if_cong)

text \<open>
  Claim C3. For a non-nil field map, \<open>rrFromMap\<close> hands to the RR constructor the
  blank-separated line made of the owner name, the \<open>ttl\<close> field or else the default
  TTL, \<open>IN\<close>, the type name, the \<open>priority\<close> field only for type MX and only when
  present, and the \<open>value\<close> field when present, quoted exactly for type TXT; it returns
  what the constructor returns. For any other type than MX a \<open>priority\<close> field changes
  nothing.
\<close>

theorem rrFromMap_record_line:
  "rrFromMap L defaultTTL typ domain (Some m) =
     (let s = Join ([ownerName domain m,
                     (case m keyTTL of Some t \<Rightarrow> t | None \<Rightarrow> defaultTTL),
                     ''IN'', typ]
                    @ (if typ = ''MX''
                       then (case m keyPriority of Some p \<Rightarrow> [p] | None \<Rightarrow> [])
                       else [])
                    @ (case m keyValue of
                         Some v \<Rightarrow> [if typ = ''TXT'' then Quote L v else v]
                       | None \<Rightarrow> [])) '' ''
      in ((fst (NewRR L s), map_option LibError (snd (NewRR L s))),
          if snd (NewRR L s) \<noteq> None then [s] else []))
   \<and> (typ \<noteq> ''MX'' \<longrightarrow>
        rrFromMap L defaultTTL typ domain (Some (m(keyPriority \<mapsto> p)))
          = rrFromMap L defaultTTL typ domain (Some (m(keyPriority := None))))"
proof -
  have A: "recordLine L defaultTTL typ domain (m(keyPriority \<mapsto> p))
             = recordLine L defaultTTL typ domain (m(keyPriority := None))" if "typ \<noteq> ''MX''"
    using that by (simp add: recordLine_def ownerName_def key_defs)
  have B: "typ \<noteq> ''MX'' \<longrightarrow>
        rrFromMap L defaultTTL typ domain (Some (m(keyPriority \<mapsto> p)))
          = rrFromMap L defaultTTL typ domain (Some (m(keyPriority := None)))"
  proof
    assume "typ \<noteq> ''MX''"
    from A [OF this] show "rrFromMap L defaultTTL typ domain (Some (m(keyPriority \<mapsto> p)))
          = rrFromMap L defaultTTL typ domain (Some (m(keyPriority := None)))"
      by (simp only: rrFromMap_Some)
  qed
  let ?s = "recordLine L defaultTTL typ domain m"
  obtain rr err where n: "NewRR L ?s = (rr, err)"
    by (metis prod.exhaust)
  have C: "rrFromMap L defaultTTL typ domain (Some m) =
      ((fst (NewRR L ?s), map_option LibError (snd (NewRR L ?s))),
          if snd (NewRR L ?s) \<noteq> None then [?s] else [])"
    by (simp only: rrFromMap_Some n) simp
  show ?thesis
    using B C unfolding recordLine_def Let_def by blast
qed

theorem rrFromMap_record_line_witness:
  "''A'' \<noteq> ''MX''
   \<and> rrFromMap exLib ''3600'' ''A'' ''example.com.'' (Some exFieldMap)
       = ((Some ''www.example.com. 3600 IN A 192.0.2.1'', None), [])
   \<and> rrFromMap exLib ''3600'' ''A'' ''example.com.'' (Some (exFieldMap(keyPriority := None)))
       = ((Some ''www.example.com. 3600 IN A 192.0.2.1'', None), [])
   \<and> rrFromMap exLib ''3600'' ''MX'' ''example.com.'' (Some exFieldMap)
       = ((Some ''www.example.com. 3600 IN MX 10 192.0.2.1'', None), [])"
proof -
  have e: "exFieldMap(keyPriority \<mapsto> ''10'') = exFieldMap"
    by (auto simp: exFieldMap_def key_defs)
  have "rrFromMap exLib ''3600'' ''A'' ''example.com.'' (Some (exFieldMap(keyPriority \<mapsto> ''10'')))
          = rrFromMap exLib ''3600'' ''A'' ''example.com.'' (Some (exFieldMap(keyPriority := None)))"
    using rrFromMap_record_line [of exLib "''3600''" "''A''" "''example.com.''" exFieldMap "''10''"]
    by simp
  moreover have "rrFromMap exLib ''3600'' ''A'' ''example.com.'' (Some exFieldMap)
       = ((Some ''www.example.com. 3600 IN A 192.0.2.1'', None), [])"
    by (simp add: rrFromMap_def exLib_def exFieldMap_def key_defs HasSuffix_def Let_def)
  moreover have "rrFromMap exLib ''3600'' ''MX'' ''example.com.'' (Some exFieldMap)
       = ((Some ''www.example.com. 3600 IN MX 10 192.0.2.1'', None), [])"
    by (simp add: rrFromMap_def exLib_def exFieldMap_def key_defs HasSuffix_def Let_def)
  ultimately show ?thesis
    using e by simp
qed

text \<open>
  Claim C4. The first token of the line handed to the RR constructor, the owner name, is
  the domain name when the field map has no \<open>hostname\<close> or has exactly \<open>@\<close> there,
  the host name unchanged when it ends with the domain name, and the host name followed
  by a dot and the domain name otherwise.
\<close>

theorem rrFromMap_owner_name:
  "\<exists>rest. rest \<noteq> [] \<and>
     fst (rrFromMap L defaultTTL typ domain (Some m)) =
       map_prod id (map_option LibError)
         (NewRR L (Join ((case m keyHostname of
                            None \<Rightarrow> domain
                          | Some v \<Rightarrow>
                              if v = ''@'' then domain
                              else if suffix domain v then v
                              else v @ ''.'' @ domain) # rest) '' ''))"
proof -
  let ?rest = "[(case m keyTTL of Some t \<Rightarrow> t | None \<Rightarrow> defaultTTL), ''IN'', typ]
           @ (if typ = ''MX'' then (case m keyPriority of Some p \<Rightarrow> [p] | None \<Rightarrow> []) else [])
           @ (case m keyValue of
                Some v \<Rightarrow> [if typ = ''TXT'' then Quote L v else v]
              | None \<Rightarrow> [])"
  have "recordLine L defaultTTL typ domain m = Join (ownerName domain m # ?rest) '' ''"
    by (simp add: recordLine_def)
  then have "fst (rrFromMap L defaultTTL typ domain (Some m)) =
       map_prod id (map_option LibError) (NewRR L (Join (ownerName domain m # ?rest) '' ''))"
    by (simp add: rrFromMap_Some split: prod.splits)
  then show ?thesis
    unfolding ownerName_def by (intro exI [of _ ?rest]) simp
qed

subsection \<open>The loops, one step at a time\<close>

lemma triple_eta: "(case x of (a, b, c) \<Rightarrow> (a, b, c)) = x"
  by (cases x) simp

lemma rrFromMap_None: "rrFromMap L defaultTTL ty domain None = ((None, None), [])"
  by (simp add: rrFromMap_def)

lemma recordLoop_step:
  "recordLoop L defaultTTL ty (r # v) recs =
     (case supportedTypes (ToUpper L ty) of
        None \<Rightarrow> recordLoop L defaultTTL (ToUpper L ty) v recs
      | Some iType \<Rightarrow>
          (case r of
             None \<Rightarrow> recordLoop L defaultTTL (ToUpper L ty) v recs
           | Some m \<Rightarrow>
               (case NewRR L (recordLine L defaultTTL (ToUpper L ty) (fqdn recs) m) of
                  (rr, err) \<Rightarrow>
                    (case err of
                       Some e \<Rightarrow>
                         (recs, Some (LibError e),
                          [recordLine L defaultTTL (ToUpper L ty) (fqdn recs) m])
                     | None \<Rightarrow>
                         (case rr of
                            None \<Rightarrow> recordLoop L defaultTTL (ToUpper L ty) v recs
                          | Some rr' \<Rightarrow>
                              recordLoop L defaultTTL (ToUpper L ty) v
                                (recs\<lparr>data := (data recs)(iType \<mapsto>
                                   (case data recs iType of Some old \<Rightarrow> old | None \<Rightarrow> [])
                                   @ [rr'])\<rparr>))))))"
  by (simp add: Let_def rrFromMap_None rrFromMap_Some triple_eta
      split: option.splits prod.splits)

lemma recordLoop_fqdn: "fqdn (fst (recordLoop L defaultTTL ty v recs)) = fqdn recs"
proof (induction v arbitrary: ty recs)
  case Nil
  show ?case by simp
next
  case (Cons r v)
  show ?case
    by (simp add: recordLoop_step Cons.IH del: recordLoop.simps
        split: option.splits prod.splits)
qed

lemma wellFormed_append:
  assumes wf: "wellFormed L defaultTTL recs"
    and st: "supportedTypes typName = Some iType"
    and rr: "NewRR L (recordLine L defaultTTL typName (fqdn recs) m) = (Some rr, None)"
  shows "wellFormed L defaultTTL
           (recs\<lparr>data := (data recs)(iType \<mapsto>
              (case data recs iType of Some old \<Rightarrow> old | None \<Rightarrow> []) @ [rr])\<rparr>)"
  unfolding wellFormed_def
proof (intro allI impI)
  fix t rrs
  let ?old = "case data recs iType of Some old \<Rightarrow> old | None \<Rightarrow> []"
  let ?recs = "recs\<lparr>data := (data recs)(iType \<mapsto> ?old @ [rr])\<rparr>"
  let ?made = "\<lambda>t rr. \<exists>typName m. supportedTypes typName = Some t \<and>
           NewRR L (recordLine L defaultTTL typName (fqdn ?recs) m) = (Some rr, None)"
  assume d: "data ?recs t = Some rrs"
  show "rrs \<noteq> [] \<and> (\<forall>rr \<in> set rrs. ?made t rr)"
  proof (cases "t = iType")
    case False
    with d have "data recs t = Some rrs" by simp
    with wf show ?thesis
      unfolding wellFormed_def by simp
  next
    case True
    with d have rrs: "rrs = ?old @ [rr]" by simp
    have old: "?made iType x" if "x \<in> set ?old" for x
    proof (cases "data recs iType")
      case None
      with that show ?thesis by simp
    next
      case (Some old)
      with that wf show ?thesis
        unfolding wellFormed_def by simp
    qed
    have new: "?made iType rr"
      using st rr by auto
    show ?thesis
      using rrs old new True by auto
  qed
qed

lemma recordLoop_wellFormed:
  "wellFormed L defaultTTL recs \<Longrightarrow>
   wellFormed L defaultTTL (fst (recordLoop L defaultTTL ty v recs))"
proof (induction v arbitrary: ty recs)
  case Nil
  then show ?case by simp
next
  case (Cons r v)
  have "fst (recordLoop L defaultTTL ty (r # v) recs) = recs \<or>
        (\<exists>recs2. wellFormed L defaultTTL recs2 \<and>
           recordLoop L defaultTTL ty (r # v) recs
             = recordLoop L defaultTTL (ToUpper L ty) v recs2)"
  proof (cases "supportedTypes (ToUpper L ty)")
    case None
    then show ?thesis
      using Cons.prems by (auto simp only: recordLoop_step option.case)
  next
    case st: (Some iType)
    show ?thesis
    proof (cases r)
      case None
      then show ?thesis
        using Cons.prems st by (auto simp only: recordLoop_step option.case)
    next
      case fm: (Some m)
      obtain rr e where n:
        "NewRR L (recordLine L defaultTTL (ToUpper L ty) (fqdn recs) m) = (rr, e)"
        by (metis prod.exhaust)
      show ?thesis
      proof (cases e)
        case (Some e')
        then show ?thesis
          using st fm n by (auto simp only: recordLoop_step option.case prod.case fst_conv)
      next
        case None
        show ?thesis
        proof (cases rr)
          case None
          then show ?thesis
            using Cons.prems st fm n \<open>e = None\<close>
            by (auto simp only: recordLoop_step option.case prod.case)
        next
          case (Some rr')
          have "wellFormed L defaultTTL
           (recs\<lparr>data := (data recs)(iType \<mapsto>
              (case data recs iType of Some old \<Rightarrow> old | None \<Rightarrow> []) @ [rr'])\<rparr>)"
            using Cons.prems st n None Some by (intro wellFormed_append) auto
          then show ?thesis
            using st fm n None Some
            by (auto simp only: recordLoop_step option.case prod.case)
        qed
      qed
    qed
  qed
  then show ?case
    using Cons.prems Cons.IH by auto
qed


lemma recordLoop_unsupported:
  "ToUpper L (ToUpper L ty) = ToUpper L ty \<Longrightarrow> \<not> supported L ty \<Longrightarrow>
   recordLoop L defaultTTL ty v recs = (recs, None, [])"
proof (induction v arbitrary: ty)
  case Nil
  show ?case by simp
next
  case (Cons r v)
  have "recordLoop L defaultTTL ty (r # v) recs = recordLoop L defaultTTL (ToUpper L ty) v recs"
    using Cons.prems by (simp add: recordLoop_step supported_def del: recordLoop.simps)
  also have "\<dots> = (recs, None, [])"
    using Cons.prems by (intro Cons.IH) (simp_all add: supported_def)
  finally show ?case .
qed



lemma recordLoop_log:
  "recordLoop L defaultTTL ty v recs = (recs', None, lg) \<Longrightarrow> lg = []"
proof (induction v arbitrary: ty recs)
  case Nil
  then show ?case by simp
next
  case (Cons r v)
  from Cons.prems show ?case
    by (auto simp: recordLoop_step simp del: recordLoop.simps
        split: option.splits prod.splits dest: Cons.IH)
qed

lemma typeLoop_step:
  assumes "recordLoop L defaultTTL ty v recs = (recs1, e1, lg1)"
  shows "typeLoop L defaultTTL ((ty, v) # m) recs =
           (if e1 = None then typeLoop L defaultTTL m recs1 else (recs1, e1, lg1))"
proof (cases e1)
  case None
  with assms have "lg1 = []"
    by (auto dest: recordLoop_log)
  with assms None show ?thesis
    by (simp add: triple_eta)
next
  case (Some e)
  with assms show ?thesis by simp
qed

lemma typeLoop_fqdn: "fqdn (fst (typeLoop L defaultTTL m recs)) = fqdn recs"
proof (induction m arbitrary: recs)
  case Nil
  show ?case by simp
next
  case (Cons a m)
  obtain ty v where a: "a = (ty, v)" by (cases a)
  obtain recs1 e1 lg1 where r: "recordLoop L defaultTTL ty v recs = (recs1, e1, lg1)"
    by (metis prod.exhaust)
  have "fqdn recs1 = fqdn recs"
    using recordLoop_fqdn [of L defaultTTL ty v recs] r by simp
  then show ?case
    unfolding a typeLoop_step [OF r] by (simp add: Cons.IH)
qed

lemma typeLoop_wellFormed:
  "wellFormed L defaultTTL recs \<Longrightarrow> wellFormed L defaultTTL (fst (typeLoop L defaultTTL m recs))"
proof (induction m arbitrary: recs)
  case Nil
  then show ?case by simp
next
  case (Cons a m)
  obtain ty v where a: "a = (ty, v)" by (cases a)
  obtain recs1 e1 lg1 where r: "recordLoop L defaultTTL ty v recs = (recs1, e1, lg1)"
    by (metis prod.exhaust)
  have "wellFormed L defaultTTL recs1"
    using recordLoop_wellFormed [OF Cons.prems, of ty v] r by simp
  then show ?case
    unfolding a typeLoop_step [OF r] by (simp add: Cons.IH)
qed


lemma typeLoop_filter:
  assumes idem: "\<forall>s. ToUpper L (ToUpper L s) = ToUpper L s"
  shows "typeLoop L defaultTTL (filter (\<lambda>(ty, v). supported L ty) m) recs
           = typeLoop L defaultTTL m recs"
proof (induction m arbitrary: recs)
  case Nil
  show ?case by simp
next
  case (Cons a m)
  obtain ty v where a: "a = (ty, v)" by (cases a)
  show ?case
  proof (cases "supported L ty")
    case True
    obtain recs1 e1 lg1 where r: "recordLoop L defaultTTL ty v recs = (recs1, e1, lg1)"
      by (metis prod.exhaust)
    show ?thesis
      using True unfolding a by (simp add: typeLoop_step [OF r] Cons.IH del: typeLoop.simps)
  next
    case False
    have r: "recordLoop L defaultTTL ty v recs = (recs, None, [])"
      using idem False by (intro recordLoop_unsupported) auto
    show ?thesis
      using False unfolding a by (simp add: typeLoop_step [OF r] Cons.IH del: typeLoop.simps)
  qed
qed




lemma typeLoop_log:
  "typeLoop L defaultTTL m recs = (recs', None, lg) \<Longrightarrow> lg = []"
proof (induction m arbitrary: recs)
  case Nil
  then show ?case by simp
next
  case (Cons a m)
  obtain ty v where a: "a = (ty, v)" by (cases a)
  obtain recs1 e1 lg1 where r: "recordLoop L defaultTTL ty v recs = (recs1, e1, lg1)"
    by (metis prod.exhaust)
  from Cons.prems show ?case
    unfolding a typeLoop_step [OF r] by (auto split: if_splits dest: Cons.IH)
qed

lemma domainLoop_step:
  assumes "records_UnmarshalJSON L defaultTTL
             \<lparr>fqdn = Fqdn L (ToLower L domain), data = Map.empty\<rparr> j = (rt, uErr, lg1)"
    and "d2 = d(Fqdn L (ToLower L domain) \<mapsto> rt)"
  shows "domainLoop L defaultTTL ((domain, j) # m) d =
           (if uErr \<noteq> None then (d, uErr, lg1) else domainLoop L defaultTTL m d2)"
proof (cases uErr)
  case None
  with assms have "lg1 = []"
    by (auto simp: records_UnmarshalJSON_def split: sum.splits dest: typeLoop_log)
  with assms None show ?thesis
    by (simp add: Let_def triple_eta)
next
  case (Some e)
  with assms show ?thesis by (simp add: Let_def)
qed

lemma records_fresh:
  assumes "records_UnmarshalJSON L defaultTTL \<lparr>fqdn = D, data = Map.empty\<rparr> j = (rt, uErr, lg1)"
  shows "fqdn rt = D" and "wellFormed L defaultTTL rt"
proof -
  have wf0: "wellFormed L defaultTTL \<lparr>fqdn = D, data = Map.empty\<rparr>"
    by (simp add: wellFormed_def)
  show "fqdn rt = D"
  proof (cases j)
    case (Inl e)
    with assms show ?thesis by (auto simp: records_UnmarshalJSON_def)
  next
    case (Inr body)
    with assms typeLoop_fqdn [of L defaultTTL body "\<lparr>fqdn = D, data = Map.empty\<rparr>"]
    show ?thesis by (simp add: records_UnmarshalJSON_def)
  qed
  show "wellFormed L defaultTTL rt"
  proof (cases j)
    case (Inl e)
    with assms wf0 show ?thesis by (auto simp: records_UnmarshalJSON_def)
  next
    case (Inr body)
    with assms typeLoop_wellFormed [OF wf0, of body]
    show ?thesis by (simp add: records_UnmarshalJSON_def)
  qed
qed

lemma domainLoop_wellFormed:
  assumes "\<forall>key recs. d key = Some recs \<longrightarrow> wellFormed L defaultTTL recs"
  shows "\<forall>key recs. fst (domainLoop L defaultTTL m d) key = Some recs
           \<longrightarrow> wellFormed L defaultTTL recs"
  using assms
proof (induction m arbitrary: d)
  case Nil
  then show ?case by simp
next
  case (Cons a m)
  obtain domain j where a: "a = (domain, j)" by (cases a)
  let ?D = "Fqdn L (ToLower L domain)"
  obtain rt uErr lg1 where r:
    "records_UnmarshalJSON L defaultTTL \<lparr>fqdn = ?D, data = Map.empty\<rparr> j = (rt, uErr, lg1)"
    by (metis prod.exhaust)
  obtain d2 where d2: "d2 = d(?D \<mapsto> rt)"
    by simp
  show ?case
  proof (cases uErr)
    case (Some e)
    then show ?thesis
      unfolding a domainLoop_step [OF r d2] using Cons.prems by simp
  next
    case None
    have "\<forall>key recs. d2 key = Some recs \<longrightarrow> wellFormed L defaultTTL recs"
      using Cons.prems records_fresh(2) [OF r] by (simp add: d2)
    from Cons.IH [OF this] show ?thesis
      unfolding a domainLoop_step [OF r d2] using None by simp
  qed
qed




lemma domainLoop_filter:
  assumes idem: "\<forall>s. ToUpper L (ToUpper L s) = ToUpper L s"
  shows "domainLoop L defaultTTL
           (map (\<lambda>(domain, j). (domain, map_sum id (filter (\<lambda>(ty, v). supported L ty)) j)) m) d
         = domainLoop L defaultTTL m d"
proof (induction m arbitrary: d)
  case Nil
  show ?case by simp
next
  case (Cons a m)
  obtain domain j where a: "a = (domain, j)" by (cases a)
  let ?D = "Fqdn L (ToLower L domain)"
  let ?j = "map_sum id (filter (\<lambda>(ty, v). supported L ty)) j"
  obtain rt uErr lg1 where r:
    "records_UnmarshalJSON L defaultTTL \<lparr>fqdn = ?D, data = Map.empty\<rparr> j = (rt, uErr, lg1)"
    by (metis prod.exhaust)
  have "records_UnmarshalJSON L defaultTTL \<lparr>fqdn = ?D, data = Map.empty\<rparr> ?j
          = records_UnmarshalJSON L defaultTTL \<lparr>fqdn = ?D, data = Map.empty\<rparr> j"
    by (cases j) (simp_all add: records_UnmarshalJSON_def typeLoop_filter [OF idem])
  with r have r': "records_UnmarshalJSON L defaultTTL \<lparr>fqdn = ?D, data = Map.empty\<rparr> ?j
          = (rt, uErr, lg1)"
    by simp
  obtain d2 where d2: "d2 = d(?D \<mapsto> rt)"
    by simp
  show ?case
    unfolding a list.map prod.case domainLoop_step [OF r d2] domainLoop_step [OF r' d2]
    by (simp add: Cons.IH)
qed




lemmas ex_eval =
  data_UnmarshalJSON_def records_UnmarshalJSON_def rrFromMap_def main_load_def
  exLib_def exDoc_def exDocRecased_def exBadDoc_def exBadEntries_def exBadValue_def
  exStore_def exPartialStore_def
  supportedTypes_def key_defs HasSuffix_def exUpperChar_def exLowerChar_def Let_def
  Type_defs

lemma exUpper_idem: "\<forall>s. ToUpper exLib (ToUpper exLib s) = ToUpper exLib s"
proof -
  have "exUpperChar (exUpperChar c) = exUpperChar c" for c
    by (simp add: exUpperChar_def)
  then show ?thesis
    by (simp add: exLib_def)
qed

lemma exDoc_load:
  "data_UnmarshalJSON exLib ''3600'' (Some Map.empty) exDoc = (Some exStore, None, [])"
  by (simp add: ex_eval)

lemma exDocRecased_load:
  "data_UnmarshalJSON exLib ''3600'' (Some Map.empty) exDocRecased = (Some exStore, None, [])"
  by (simp add: ex_eval)


lemma data_UnmarshalJSON_Inr:
  "data_UnmarshalJSON L defaultTTL (Some d0) (Inr m) = (d, err, lg) \<longleftrightarrow>
     (\<exists>d'. d = Some d' \<and> domainLoop L defaultTTL m d0 = (d', err, lg))"
  by (auto simp: data_UnmarshalJSON_def split: prod.splits)

text \<open>
  Claim C8. After a load into an empty store, every sequence in the type map of every
  record set is non-empty, lies under one of the supported type codes, and holds only
  records that the RR constructor made of a record line of a type name with that code.
  Entries of the document whose type name is not a supported one are skipped: the load
  gives the same store, the same error or none, and the same log as the load of the
  document without these entries (upper-casing a name twice being the same as
  upper-casing it once, since the loop upper-cases the name anew at every turn).
\<close>

theorem normalization_type_map:
  "(data_UnmarshalJSON L defaultTTL (Some Map.empty) b = (Some d, None, lg) \<longrightarrow>
      (\<forall>domain recs ty rrs. d domain = Some recs \<and> data recs ty = Some rrs \<longrightarrow>
         rrs \<noteq> [] \<and> ty \<in> ran supportedTypes \<and>
         (\<forall>rr \<in> set rrs. \<exists>typName m.
            supportedTypes typName = Some ty \<and>
            NewRR L (recordLine L defaultTTL typName (fqdn recs) m) = (Some rr, None))))
   \<and> ((\<forall>s. ToUpper L (ToUpper L s) = ToUpper L s) \<longrightarrow>
        data_UnmarshalJSON L defaultTTL d0 (withoutUnsupported L b)
          = data_UnmarshalJSON L defaultTTL d0 b)"
proof -
  have skip: "data_UnmarshalJSON L defaultTTL d0 (withoutUnsupported L b)
          = data_UnmarshalJSON L defaultTTL d0 b"
    if idem: "\<forall>s. ToUpper L (ToUpper L s) = ToUpper L s"
  proof (cases b)
    case (Inl e)
    then show ?thesis
      by (simp add: withoutUnsupported_def)
  next
    case (Inr m)
    then show ?thesis
      by (cases d0)
        (simp_all add: withoutUnsupported_def data_UnmarshalJSON_def domainLoop_filter [OF idem])
  qed
  have inv: "rrs \<noteq> [] \<and> ty \<in> ran supportedTypes \<and>
         (\<forall>rr \<in> set rrs. \<exists>typName m.
            supportedTypes typName = Some ty \<and>
            NewRR L (recordLine L defaultTTL typName (fqdn recs) m) = (Some rr, None))"
    if run: "data_UnmarshalJSON L defaultTTL (Some Map.empty) b = (Some d, None, lg)"
      and stored: "d domain = Some recs \<and> data recs ty = Some rrs"
    for domain recs ty rrs
  proof -
    obtain m where b: "b = Inr m"
      using run by (cases b) (auto simp: data_UnmarshalJSON_def)
    have loop: "domainLoop L defaultTTL m Map.empty = (d, None, lg)"
      using run unfolding b by (simp add: data_UnmarshalJSON_Inr)
    have "\<forall>key recs. (Map.empty :: 'a store) key = Some recs \<longrightarrow> wellFormed L defaultTTL recs"
      by simp
    from domainLoop_wellFormed [OF this, of m] loop stored
    have wf: "wellFormed L defaultTTL recs"
      by auto
    from wf stored have ne: "rrs \<noteq> []"
      and made: "\<forall>rr \<in> set rrs. \<exists>typName m.
              supportedTypes typName = Some ty \<and>
              NewRR L (recordLine L defaultTTL typName (fqdn recs) m) = (Some rr, None)"
      unfolding wellFormed_def by blast+
    from ne obtain rr where "rr \<in> set rrs"
      by (cases rrs) auto
    with made have ran: "ty \<in> ran supportedTypes"
      by (auto simp: ran_def)
    from ne ran made show ?thesis
      by blast
  qed
  from skip inv show ?thesis
    by blast
qed

theorem normalization_type_map_witness:
  "data_UnmarshalJSON exLib ''3600'' (Some Map.empty) exDoc = (Some exStore, None, [])
   \<and> (\<forall>s. ToUpper exLib (ToUpper exLib s) = ToUpper exLib s)
   \<and> \<not> supported exLib ''SRV''
   \<and> data_UnmarshalJSON exLib ''3600'' (Some Map.empty) (withoutUnsupported exLib exDoc)
       = (Some exStore, None, [])
   \<and> TypeTXT \<in> ran supportedTypes"
proof -
  note inst = normalization_type_map [of exLib "''3600''" exDoc exStore "[]" "Some Map.empty"]
  have ld: "data_UnmarshalJSON exLib ''3600'' (Some Map.empty) exDoc = (Some exStore, None, [])"
    by (rule exDoc_load)
  have st: "exStore ''example.com.'' = Some \<lparr> fqdn = ''example.com.'',
       data = [TypeA \<mapsto> [''example.com. 3600 IN A 192.0.2.1''],
               TypeTXT \<mapsto> [''example.com. 3600 IN TXT '' @ [CHR 0x22] @ ''hello world'' @ [CHR 0x22]]] \<rparr>
     \<and> data \<lparr> fqdn = ''example.com.'',
       data = [TypeA \<mapsto> [''example.com. 3600 IN A 192.0.2.1''],
               TypeTXT \<mapsto> [''example.com. 3600 IN TXT '' @ [CHR 0x22] @ ''hello world'' @ [CHR 0x22]]] \<rparr>
         TypeTXT = Some [''example.com. 3600 IN TXT '' @ [CHR 0x22] @ ''hello world'' @ [CHR 0x22]]"
    by (simp add: exStore_def)
  from inst ld st have "TypeTXT \<in> ran supportedTypes"
    by blast
  moreover from inst exUpper_idem ld
  have "data_UnmarshalJSON exLib ''3600'' (Some Map.empty) (withoutUnsupported exLib exDoc)
       = (Some exStore, None, [])"
    by simp
  moreover have "\<not> supported exLib ''SRV''"
    by (simp add: supported_def exLib_def exUpperChar_def supportedTypes_def)
  ultimately show ?thesis
    using ld exUpper_idem by blast
qed






end
